theory Spec2Isabelle
  imports Main
begin

section \<open>The safe-unix gateway: helpers\<close>

text \<open>
  An argument vector is an array of strings, here a list of strings. A handler that is
  called without an \<open>args\<close> field sees the default \<open>[]\<close>, so the empty list
  stands for both. Values of another type in the place of the vector are outside the
  model.
\<close>

type_synonym argv = "string list"

text \<open>\<open>a.startsWith(p)\<close>\<close>

definition startsWith :: "string \<Rightarrow> string \<Rightarrow> bool" where
  "startsWith a p = (take (length p) a = p)"

text \<open>The set literal \<open>FORBIDDEN_TOKENS\<close>; \<open>has\<close> is exact string equality.\<close>

definition FORBIDDEN_TOKENS :: "string list" where
  "FORBIDDEN_TOKENS = [''-exec'', ''-ok'', ''-delete'', ''-i'', ''--in-place'']"

text \<open>
  \<open>rejectForbidden\<close> and \<open>ensureOnly\<close> return nothing and throw at the first
  offending element. The thrown error is the value \<open>Some message\<close>, a normal return
  is \<open>None\<close>.
\<close>

fun rejectForbidden :: "argv \<Rightarrow> string option" where
  "rejectForbidden [] = None"
| "rejectForbidden (a # argv) =
     (if a \<in> set FORBIDDEN_TOKENS then Some (''forbidden argument: '' @ a)
      else rejectForbidden argv)"

fun ensureOnly :: "argv \<Rightarrow> string list \<Rightarrow> string option" where
  "ensureOnly [] allowlist = None"
| "ensureOnly (a # argv) allowlist =
     (if a \<notin> set allowlist \<and> startsWith a ''-'' then Some (''flag not allowed here: '' @ a)
      else ensureOnly argv allowlist)"

section \<open>The command executor\<close>

text \<open>
  \<open>spawn(cmd, args, {stdio: [pipe, pipe, pipe], shell: false})\<close>: the call is recorded
  with the option that decides whether a shell reads the arguments.
\<close>

record spawn_call =
  command :: string
  arguments :: argv
  shell :: bool

text \<open>
  What the child process does is outside the program. It is a parameter of the model:
  the first event that settles the promise of \<open>run\<close>, either \<open>error\<close> (the process
  could not be started; the value is the error's message) or \<open>close\<close> with the exit
  code (\<open>null\<close> when a signal ended the process) and everything written to stdout and
  stderr.
\<close>

datatype proc_event =
    SpawnError string
  | Close "int option" string string

type_synonym executor = "spawn_call \<Rightarrow> proc_event"

record exec_result =
  code :: int
  out :: string
  err :: string

text \<open>The decimal text of a number in a template literal.\<close>

fun digits :: "nat \<Rightarrow> string" where
  "digits n = (if n < 10 then [char_of (48 + n)] else digits (n div 10) @ [char_of (48 + n mod 10)])"

declare digits.simps [simp del]

definition show_code :: "int option \<Rightarrow> string" where
  "show_code c =
     (case c of None \<Rightarrow> ''null''
      | Some n \<Rightarrow> if n < 0 then ''-'' @ digits (nat (- n)) else digits (nat n))"

text \<open>
  \<open>run(cmd, args)\<close>: one spawn, never through a shell. The promise resolves on exit
  code 0 and rejects otherwise; the rejection is \<open>Inl\<close> with the error's message. The
  list of spawn calls made so far is threaded through as state.
\<close>

definition run :: "executor \<Rightarrow> string \<Rightarrow> argv \<Rightarrow> spawn_call list \<Rightarrow> (string + exec_result) \<times> spawn_call list" where
  "run ex cmd args log =
     (let p = \<lparr>command = cmd, arguments = args, shell = False\<rparr> in
      (case ex p of
         SpawnError e \<Rightarrow> Inl e
       | Close c so se \<Rightarrow>
           if c = Some 0 then Inr \<lparr>code = 0, out = so, err = se\<rparr>
           else Inl (if se \<noteq> [] then se else ''exit '' @ show_code c),
       log @ [p]))"

section \<open>Tool implementations\<close>

text \<open>
  Every tool either throws before it reaches \<open>run\<close>, or ends in exactly one call
  \<open>return run(cmd, argv)\<close>. A tool is modelled by that decision; the handler of
  \<open>tools/call\<close> below performs the call.
\<close>

datatype tool_outcome =
    Throw string
  | CallRun string argv

type_synonym tool = "argv \<Rightarrow> tool_outcome"

definition dash_args :: "argv \<Rightarrow> argv" where
  "dash_args args = filter (\<lambda>a. startsWith a ''-'') args"

definition ls_allowlist :: "string list" where
  "ls_allowlist = [''-l'', ''-la'', ''-lah'', ''-1'', ''-A'', ''-F'', ''-p'', ''-R'']"

definition safe_ls :: tool where
  "safe_ls args =
     (case ensureOnly (dash_args args) ls_allowlist of
        Some e \<Rightarrow> Throw e
      | None \<Rightarrow> CallRun ''ls'' args)"

definition safe_stat :: tool where
  "safe_stat args = CallRun ''stat'' (filter (\<lambda>a. \<not> startsWith a ''--'') args)"

definition safe_sed :: tool where
  "safe_sed args =
     (case rejectForbidden args of
        Some e \<Rightarrow> Throw e
      | None \<Rightarrow> CallRun ''sed'' args)"

text \<open>The regular expression \<open>/^sha(1|224|256|384|512)sum$/\<close>, tested on the whole string.\<close>

definition sha_sum_name :: "string \<Rightarrow> bool" where
  "sha_sum_name t = (t \<in> set (map (\<lambda>n. ''sha'' @ n @ ''sum'') [''1'', ''224'', ''256'', ''384'', ''512'']))"

definition safe_sha :: tool where
  "safe_sha args =
     (let (tool, rest) = (case args of [] \<Rightarrow> (''sha256sum'', []) | t # r \<Rightarrow> (t, r)) in
      if sha_sum_name tool then CallRun tool rest
      else if tool = ''shasum'' then CallRun ''shasum'' rest
      else if tool = ''md5sum'' \<or> tool = ''md5'' then CallRun tool rest
      else CallRun ''sha256sum'' args)"

definition tar_allowed :: "string list" where
  "tar_allowed = [''-t'', ''-f'', ''-v'', ''--list'']"

definition safe_tar_list :: tool where
  "safe_tar_list args =
     (case ensureOnly (dash_args args) tar_allowed of
        Some e \<Rightarrow> Throw e
      | None \<Rightarrow> CallRun ''tar'' args)"

definition safe_unzip_list :: tool where
  "safe_unzip_list args =
     (if ''-l'' \<notin> set args then Throw ''safe_unzip_list requires -l (list) mode''
      else CallRun ''unzip'' args)"

definition safe_find :: tool where
  "safe_find args =
     (case rejectForbidden args of
        Some e \<Rightarrow> Throw e
      | None \<Rightarrow> CallRun ''find'' args)"

definition allowedSub :: "string list" where
  "allowedSub = [''status'', ''diff'', ''show'', ''log'', ''ls-files'', ''rev-parse'', ''branch'',
     ''tag'', ''remote'', ''blame'', ''cat-file'', ''describe'']"

text \<open>\<open>args[0] || ""\<close>: the first element, or the empty string when there is none.\<close>

definition first_or_empty :: "argv \<Rightarrow> string" where
  "first_or_empty args = (case args of [] \<Rightarrow> [] | a # _ \<Rightarrow> a)"

definition safe_git :: tool where
  "safe_git args =
     (let sub = first_or_empty args in
      if sub \<notin> set allowedSub then Throw (''git subcommand not allowed: '' @ sub)
      else CallRun ''git'' args)"

text \<open>The two shapes shared by the other entries of the table.\<close>

definition pass_args :: "string \<Rightarrow> tool" where
  "pass_args cmd args = CallRun cmd args"

definition no_args :: "string \<Rightarrow> tool" where
  "no_args cmd args = CallRun cmd []"

text \<open>The object literal \<open>tools\<close>, in the order it is written.\<close>

definition tools :: "(string \<times> tool) list" where
  "tools =
    [(''safe_ls'', safe_ls),
     (''safe_pwd'', no_args ''pwd''),
     (''safe_stat'', safe_stat),
     (''safe_file'', pass_args ''file''),
     (''safe_cat'', pass_args ''cat''),
     (''safe_head'', pass_args ''head''),
     (''safe_tail'', pass_args ''tail''),
     (''safe_less'', pass_args ''less''),
     (''safe_more'', pass_args ''more''),
     (''safe_grep'', pass_args ''grep''),
     (''safe_awk'', pass_args ''awk''),
     (''safe_sed'', safe_sed),
     (''safe_cut'', pass_args ''cut''),
     (''safe_paste'', pass_args ''paste''),
     (''safe_tr'', pass_args ''tr''),
     (''safe_sort'', pass_args ''sort''),
     (''safe_uniq'', pass_args ''uniq''),
     (''safe_fmt'', pass_args ''fmt''),
     (''safe_fold'', pass_args ''fold''),
     (''safe_column'', pass_args ''column''),
     (''safe_wc'', pass_args ''wc''),
     (''safe_cksum'', pass_args ''cksum''),
     (''safe_sha'', safe_sha),
     (''safe_tar_list'', safe_tar_list),
     (''safe_zipinfo'', pass_args ''zipinfo''),
     (''safe_unzip_list'', safe_unzip_list),
     (''safe_du'', pass_args ''du''),
     (''safe_df'', pass_args ''df''),
     (''safe_env'', pass_args ''env''),
     (''safe_id'', no_args ''id''),
     (''safe_uname'', pass_args ''uname''),
     (''safe_date'', pass_args ''date''),
     (''safe_ps'', pass_args ''ps''),
     (''safe_uptime'', no_args ''uptime''),
     (''safe_find'', safe_find),
     (''safe_git'', safe_git),
     (''safe_jq'', pass_args ''jq''),
     (''safe_yq'', pass_args ''yq''),
     (''safe_hexdump'', pass_args ''hexdump''),
     (''safe_xxd'', pass_args ''xxd''),
     (''safe_od'', pass_args ''od''),
     (''safe_tree'', pass_args ''tree''),
     (''safe_sw_vers'', no_args ''sw_vers'')]"

text \<open>\<open>Object.keys(tools)\<close>: the own keys, in insertion order.\<close>

definition tool_names :: "string list" where
  "tool_names = map fst tools"

section \<open>The request handlers\<close>

text \<open>
  \<open>tools\<close> is a plain object, so the property read \<open>tools[name]\<close> looks at the own
  properties first and then at those every object inherits from \<open>Object.prototype\<close>.
  The inherited names are those of the language standard.
\<close>

definition Object_prototype_names :: "string list" where
  "Object_prototype_names =
    [''constructor'', ''__defineGetter__'', ''__defineSetter__'', ''hasOwnProperty'',
     ''__lookupGetter__'', ''__lookupSetter__'', ''isPrototypeOf'', ''propertyIsEnumerable'',
     ''toString'', ''valueOf'', ''__proto__'', ''toLocaleString'']"

datatype property =
    Undefined
  | OwnTool tool
  | Inherited string

definition get_tool :: "string \<Rightarrow> property" where
  "get_tool name =
     (case map_of tools name of
        Some fn \<Rightarrow> OwnTool fn
      | None \<Rightarrow> if name \<in> set Object_prototype_names then Inherited name else Undefined)"

text \<open>
  Calling an inherited member as \<open>fn(args)\<close>, with no receiver and one object argument:
  \<open>constructor\<close> (that is \<open>Object\<close>) returns its argument and \<open>toString\<close> returns the
  string \<open>[object Undefined]\<close>; neither value has a field \<open>out\<close>. \<open>__proto__\<close> is not a
  function, and the other members need a receiver: a \<open>TypeError\<close> is thrown. \<open>None\<close> is
  a normal return, \<open>Some m\<close> a throw. The wording of \<open>m\<close> is the engine's (here that of
  V8, which runs the program); nothing below depends on it.
\<close>

definition call_inherited :: "string \<Rightarrow> string option" where
  "call_inherited name =
     (if name = ''constructor'' \<or> name = ''toString'' then None
      else if name = ''__proto__'' then Some ''fn is not a function''
      else if name = ''toLocaleString''
        then Some ''Object.prototype.toLocaleString called on null or undefined''
      else Some ''Cannot convert undefined or null to object'')"

text \<open>
  The payloads of a response, and \<open>reply(id, result, error)\<close>. The field \<open>stdout\<close> of
  the result of a call is \<open>None\<close> when the value is \<open>undefined\<close>.
\<close>

datatype payload =
    InitializeResult string string "(string \<times> string) list"
  | NameList "string list"
  | CallResult "string option"
  | Ok
  | Null

datatype reply =
    Result int payload
  | Error int int string

text \<open>
  An error is given by its message \<open>m\<close>; \<open>String(error.message || error)\<close> is \<open>m\<close>,
  or the text \<open>Error\<close> when the message is empty.
\<close>

definition reply :: "int \<Rightarrow> payload option \<Rightarrow> string option \<Rightarrow> reply" where
  "reply i result error =
     (case error of
        Some m \<Rightarrow> Error i (- 32000) (if m \<noteq> [] then m else ''Error'')
      | None \<Rightarrow> Result i (case result of Some r \<Rightarrow> r | None \<Rightarrow> Null))"

definition SERVER_NAME :: string where
  "SERVER_NAME = ''safe-unix-mcp''"

definition VERSION :: string where
  "VERSION = ''0.1.0''"

datatype request =
    Initialize
  | ToolsList
  | ToolsCall string argv
  | Other

text \<open>The branch for \<open>tools/call\<close>.\<close>

definition tools_call :: "executor \<Rightarrow> int \<Rightarrow> string \<Rightarrow> argv \<Rightarrow> spawn_call list \<Rightarrow> reply \<times> spawn_call list" where
  "tools_call ex i name args log =
     (case get_tool name of
        Undefined \<Rightarrow> (reply i None (Some ''unknown tool''), log)
      | OwnTool fn \<Rightarrow>
          (case fn args of
             Throw e \<Rightarrow> (reply i None (Some e), log)
           | CallRun cmd argv \<Rightarrow>
               (case run ex cmd argv log of
                  (Inl e, log') \<Rightarrow> (reply i None (Some e), log')
                | (Inr r, log') \<Rightarrow> (reply i (Some (CallResult (Some (out r)))) None, log')))
      | Inherited m \<Rightarrow>
          (case call_inherited m of
             Some e \<Rightarrow> (reply i None (Some e), log)
           | None \<Rightarrow> (reply i (Some (CallResult None)) None, log)))"

text \<open>One decoded message with its id.\<close>

definition handle :: "executor \<Rightarrow> int \<Rightarrow> request \<Rightarrow> spawn_call list \<Rightarrow> reply \<times> spawn_call list" where
  "handle ex i req log =
     (case req of
        Initialize \<Rightarrow>
          (reply i (Some (InitializeResult SERVER_NAME VERSION
             (map (\<lambda>name. (name, ''Safe Unix utility'')) tool_names))) None, log)
      | ToolsList \<Rightarrow> (reply i (Some (NameList tool_names)) None, log)
      | ToolsCall name args \<Rightarrow> tools_call ex i name args log
      | Other \<Rightarrow> (reply i (Some Ok) None, log))"

section \<open>A command double\<close>

text \<open>
  A stand-in for the underlying commands in concrete runs: whatever it is started
  with, the process closes with the given exit code, stdout and stderr.
\<close>

definition exits :: "int option \<Rightarrow> string \<Rightarrow> string \<Rightarrow> executor" where
  "exits c so se p = Close c so se"

section \<open>Module-level state\<close>

text \<open>
  Between requests the program keeps three mutable things at module level: the set
  \<open>FORBIDDEN_TOKENS\<close>, the object \<open>tools\<close> and the string \<open>buf\<close>. They are the
  fields of the state below, next to the spawn calls made so far. The set is the one
  piece of it that the bodies of the tools mention (through \<open>rejectForbidden\<close>), so a
  tool is a function that is handed the contents of the set and hands them back,
  changed or not, with its outcome.
\<close>

type_synonym mtool = "argv \<Rightarrow> string list \<Rightarrow> tool_outcome \<times> string list"

record module_state =
  forbidden :: "string list"
  table :: "(string \<times> mtool) list"
  buf :: string
  spawned :: "spawn_call list"

text \<open>\<open>rejectForbidden\<close>, reading the set it is given.\<close>

fun rejectForbidden_in :: "string list \<Rightarrow> argv \<Rightarrow> string option" where
  "rejectForbidden_in F [] = None"
| "rejectForbidden_in F (a # argv) =
     (if a \<in> set F then Some (''forbidden argument: '' @ a) else rejectForbidden_in F argv)"

text \<open>
  The bodies of \<open>safe_sed\<close> and \<open>safe_find\<close>, which read the set, and the shape of
  every other tool, which does not mention it.
\<close>

definition reads_forbidden :: "string \<Rightarrow> mtool" where
  "reads_forbidden cmd args F =
     (case rejectForbidden_in F args of Some e \<Rightarrow> Throw e | None \<Rightarrow> CallRun cmd args, F)"

definition keeps :: "tool \<Rightarrow> mtool" where
  "keeps t args F = (t args, F)"

text \<open>
  The object \<open>tools\<close> as the module creates it: the entries of the table above in
  the same order, \<open>safe_sed\<close> and \<open>safe_find\<close> with the body that reads the set and
  every other entry with its own body, which leaves the set alone. Then the state at
  start.
\<close>

definition module_tools :: "(string \<times> mtool) list" where
  "module_tools =
     map (\<lambda>(name, t).
            (name,
             if name = ''safe_sed'' then reads_forbidden ''sed''
             else if name = ''safe_find'' then reads_forbidden ''find''
             else keeps t))
       tools"

definition module_start :: module_state where
  "module_start = \<lparr>forbidden = FORBIDDEN_TOKENS, table = module_tools, buf = [], spawned = []\<rparr>"

datatype mproperty =
    MUndefined
  | MOwn mtool
  | MInherited string

definition m_get_tool :: "module_state \<Rightarrow> string \<Rightarrow> mproperty" where
  "m_get_tool s name =
     (case map_of (table s) name of
        Some fn \<Rightarrow> MOwn fn
      | None \<Rightarrow> if name \<in> set Object_prototype_names then MInherited name else MUndefined)"

text \<open>The branch for \<open>tools/call\<close> and the handling of one decoded message, on the state.\<close>

definition m_tools_call :: "executor \<Rightarrow> int \<Rightarrow> string \<Rightarrow> argv \<Rightarrow> module_state \<Rightarrow> reply \<times> module_state" where
  "m_tools_call ex i name args s =
     (case m_get_tool s name of
        MUndefined \<Rightarrow> (reply i None (Some ''unknown tool''), s)
      | MOwn fn \<Rightarrow>
          (case fn args (forbidden s) of
             (Throw e, F) \<Rightarrow> (reply i None (Some e), s\<lparr>forbidden := F\<rparr>)
           | (CallRun cmd argv, F) \<Rightarrow>
               (case run ex cmd argv (spawned s) of
                  (Inl e, l) \<Rightarrow> (reply i None (Some e), s\<lparr>forbidden := F, spawned := l\<rparr>)
                | (Inr r, l) \<Rightarrow>
                    (reply i (Some (CallResult (Some (out r)))) None,
                     s\<lparr>forbidden := F, spawned := l\<rparr>)))
      | MInherited m \<Rightarrow>
          (case call_inherited m of
             Some e \<Rightarrow> (reply i None (Some e), s)
           | None \<Rightarrow> (reply i (Some (CallResult None)) None, s)))"

definition m_handle :: "executor \<Rightarrow> int \<Rightarrow> request \<Rightarrow> module_state \<Rightarrow> reply \<times> module_state" where
  "m_handle ex i req s =
     (case req of
        Initialize \<Rightarrow>
          (reply i (Some (InitializeResult SERVER_NAME VERSION
             (map (\<lambda>name. (name, ''Safe Unix utility'')) (map fst (table s))))) None, s)
      | ToolsList \<Rightarrow> (reply i (Some (NameList (map fst (table s)))) None, s)
      | ToolsCall name args \<Rightarrow> m_tools_call ex i name args s
      | Other \<Rightarrow> (reply i (Some Ok) None, s))"

text \<open>
  The handler of \<open>data\<close> on stdin. What \<open>JSON.parse\<close> and the reading of \<open>method\<close>,
  \<open>id\<close> and \<open>params\<close> make of a line is a parameter: \<open>None\<close> for a line that is blank
  or does not parse (the loop goes on to the next line in both cases), the id and the
  request otherwise. The loop takes the lines off the front of \<open>buf\<close> one by one; a call
  of a name that resolves to nothing leaves the handler with \<open>return\<close>, the rest of
  \<open>buf\<close> staying for the next chunk. The result is the list of responses written.
\<close>

type_synonym decoder = "string \<Rightarrow> (int \<times> request) option"

definition returns_early :: "module_state \<Rightarrow> request \<Rightarrow> bool" where
  "returns_early s req =
     (case req of
        ToolsCall name args \<Rightarrow> (case m_get_tool s name of MUndefined \<Rightarrow> True | _ \<Rightarrow> False)
      | _ \<Rightarrow> False)"

function drain :: "decoder \<Rightarrow> executor \<Rightarrow> module_state \<Rightarrow> reply list \<times> module_state" where
  "drain dec ex s =
     (if CHR 0x0A \<notin> set (buf s) then ([], s)
      else
        (let line = takeWhile (\<lambda>c. c \<noteq> CHR 0x0A) (buf s);
             s1 = s\<lparr>buf := tl (dropWhile (\<lambda>c. c \<noteq> CHR 0x0A) (buf s))\<rparr>
         in case dec line of
              None \<Rightarrow> drain dec ex s1
            | Some (i, req) \<Rightarrow>
                (case m_handle ex i req s1 of
                   (r, s2) \<Rightarrow>
                     if returns_early s1 req then ([r], s2)
                     else (case drain dec ex s2 of (rs, s3) \<Rightarrow> (r # rs, s3)))))"
  by pat_completeness auto
termination
proof (relation "measure (\<lambda>(dec, ex, s). length (buf s))")
  show "wf (measure (\<lambda>(dec :: decoder, ex :: executor, s :: module_state). length (buf s)))"
    by simp
next
  fix dec :: decoder and ex :: executor and s s1 :: module_state
  assume nl: "\<not> CHR 0x0A \<notin> set (buf s)"
    and s1: "s1 = s\<lparr>buf := tl (dropWhile (\<lambda>c. c \<noteq> CHR 0x0A) (buf s))\<rparr>"
  from nl have "dropWhile (\<lambda>c. c \<noteq> CHR 0x0A) (buf s) \<noteq> []"
    by (simp add: dropWhile_eq_Nil_conv)
  then have "length (tl (dropWhile (\<lambda>c. c \<noteq> CHR 0x0A) (buf s))) <
      length (dropWhile (\<lambda>c. c \<noteq> CHR 0x0A) (buf s))"
    by (cases "dropWhile (\<lambda>c. c \<noteq> CHR 0x0A) (buf s)") simp_all
  also have "\<dots> \<le> length (buf s)"
    by (rule length_dropWhile_le)
  finally have less: "length (buf s1) < length (buf s)"
    by (simp add: s1)
  then show "((dec, ex, s1), dec, ex, s) \<in> measure (\<lambda>(dec, ex, s). length (buf s))"
    by simp
  fix i :: int and req :: request and r :: reply and s2 :: module_state
  assume s2: "(r, s2) = m_handle ex i req s1"
  have "buf (snd (m_handle ex i req s1)) = buf s1"
    by (simp add: m_handle_def m_tools_call_def
        split: request.split mproperty.split prod.split tool_outcome.split sum.split option.split)
  with s2 [symmetric] have "buf s2 = buf s1"
    by simp
  with less show "((dec, ex, s2), dec, ex, s) \<in> measure (\<lambda>(dec, ex, s). length (buf s))"
    by simp
qed

declare drain.simps [simp del]

definition on_data :: "decoder \<Rightarrow> executor \<Rightarrow> string \<Rightarrow> module_state \<Rightarrow> reply list \<times> module_state" where
  "on_data dec ex chunk s = drain dec ex (s\<lparr>buf := buf s @ chunk\<rparr>)"

text \<open>
  The states the module can be in: the state at start, and every state the handler of
  \<open>data\<close> leaves behind, whatever the chunk, the decoding of its lines and the
  behaviour of the commands were.
\<close>

inductive reachable :: "module_state \<Rightarrow> bool" where
  start: "reachable module_start"
| data: "reachable s \<Longrightarrow> reachable (snd (on_data dec ex chunk s))"

text \<open>
  A decoder double: a line is read as the call, with id 1, of the tool it names, with
  the one argument \<open>-x\<close>.
\<close>

definition calls_named :: decoder where
  "calls_named line = Some (1, ToolsCall line [''-x''])"

section \<open>Facts about the helpers and the dispatch\<close>

lemma rejectForbidden_find:
  "rejectForbidden args =
     map_option (\<lambda>a. ''forbidden argument: '' @ a) (find (\<lambda>a. a \<in> set FORBIDDEN_TOKENS) args)"
  by (induction args) simp_all



lemma find_None_iff': "(find P xs = None) = (\<forall>x\<in>set xs. \<not> P x)"
  by (induction xs) auto

lemma find_Some_mem: "find P xs = Some x \<Longrightarrow> x \<in> set xs \<and> P x"
  by (induction xs) (auto split: if_splits)

lemma get_tool_own: "map_of tools name = Some fn \<Longrightarrow> get_tool name = OwnTool fn"
  by (simp add: get_tool_def)

lemma tools_call_Throw:
  assumes "get_tool name = OwnTool fn" and "fn args = Throw e"
  shows "tools_call ex i name args log = (reply i None (Some e), log)"
  using assms by (simp add: tools_call_def)

lemma tools_call_CallRun:
  assumes "get_tool name = OwnTool fn" and "fn args = CallRun cmd argv"
  shows "snd (tools_call ex i name args log) =
         log @ [\<lparr>command = cmd, arguments = argv, shell = False\<rparr>]"
  using assms by (simp add: tools_call_def run_def Let_def split: proc_event.split sum.split)

lemma reply_error: "e \<noteq> [] \<Longrightarrow> reply i r (Some e) = Error i (- 32000) e"
  by (simp add: reply_def)



lemma get_tool_safe_find: "get_tool ''safe_find'' = OwnTool safe_find"
  by (simp add: get_tool_def tools_def)

lemma get_tool_safe_sed: "get_tool ''safe_sed'' = OwnTool safe_sed"
  by (simp add: get_tool_def tools_def)

lemma get_tool_safe_git: "get_tool ''safe_git'' = OwnTool safe_git"
  by (simp add: get_tool_def tools_def)

lemma get_tool_safe_sha: "get_tool ''safe_sha'' = OwnTool safe_sha"
  by (simp add: get_tool_def tools_def)

lemma get_tool_safe_unzip_list: "get_tool ''safe_unzip_list'' = OwnTool safe_unzip_list"
  by (simp add: get_tool_def tools_def)




section \<open>Flag allowlists\<close>



section \<open>The token denylist\<close>

lemma denylist_tool:
  assumes "fn = (\<lambda>args. case rejectForbidden args of Some e \<Rightarrow> Throw e | None \<Rightarrow> CallRun cmd args)"
  shows "fn args =
     (case find (\<lambda>a. a \<in> set FORBIDDEN_TOKENS) args of
        Some t \<Rightarrow> Throw (''forbidden argument: '' @ t)
      | None \<Rightarrow> CallRun cmd args)"
  by (simp add: assms rejectForbidden_find split: option.split)

lemma get_tool_denylist:
  assumes "name = ''safe_find'' \<or> name = ''safe_sed''"
  shows "get_tool name =
     OwnTool (\<lambda>args. case rejectForbidden args of Some e \<Rightarrow> Throw e
                | None \<Rightarrow> CallRun (if name = ''safe_find'' then ''find'' else ''sed'') args)"
  using assms
  by (auto simp: get_tool_safe_find get_tool_safe_sed safe_find_def safe_sed_def fun_eq_iff)

text \<open>
  Claim C3. \<open>safe_find\<close> and \<open>safe_sed\<close> are the operations that call
  \<open>rejectForbidden\<close>. A vector that holds one of the five forbidden tokens, at any
  position and next to any other tokens, is answered with the error that names the first
  of them, and nothing is spawned. A vector in which no token equals one of the five is
  not refused: the command is spawned with the vector as it is, so a token that only
  contains a forbidden string or differs in case passes.
\<close>
theorem denylist_rejects_exact_tokens:
  assumes op: "name = ''safe_find'' \<or> name = ''safe_sed''"
  shows "((\<exists>t \<in> set args. t \<in> {''-exec'', ''-ok'', ''-delete'', ''-i'', ''--in-place''}) \<longrightarrow>
            (\<exists>t. find (\<lambda>a. a \<in> {''-exec'', ''-ok'', ''-delete'', ''-i'', ''--in-place''}) args = Some t \<and>
               t \<in> set args \<and> t \<in> {''-exec'', ''-ok'', ''-delete'', ''-i'', ''--in-place''} \<and>
               tools_call ex i name args log = (Error i (- 32000) (''forbidden argument: '' @ t), log))) \<and>
         (\<not> (\<exists>t \<in> set args. t \<in> {''-exec'', ''-ok'', ''-delete'', ''-i'', ''--in-place''}) \<longrightarrow>
            snd (tools_call ex i name args log) =
              log @ [\<lparr>command = (if name = ''safe_find'' then ''find'' else ''sed''),
                      arguments = args, shell = False\<rparr>])"
proof -
  let ?F = "{''-exec'', ''-ok'', ''-delete'', ''-i'', ''--in-place''}"
  let ?cmd = "if name = ''safe_find'' then ''find'' else ''sed''"
  let ?fn = "\<lambda>args. case rejectForbidden args of Some e \<Rightarrow> Throw e | None \<Rightarrow> CallRun ?cmd args"
  have F: "set FORBIDDEN_TOKENS = ?F"
    by (simp add: FORBIDDEN_TOKENS_def)
  have gt: "get_tool name = OwnTool ?fn"
    using op by (rule get_tool_denylist)
  have fn: "?fn args =
     (case find (\<lambda>a. a \<in> set FORBIDDEN_TOKENS) args of
        Some t \<Rightarrow> Throw (''forbidden argument: '' @ t) | None \<Rightarrow> CallRun ?cmd args)"
    by (rule denylist_tool) simp
  show ?thesis
  proof (cases "find (\<lambda>a. a \<in> set FORBIDDEN_TOKENS) args")
    case None
    then have no: "\<not> (\<exists>t \<in> set args. t \<in> ?F)"
      by (simp add: find_None_iff' F)
    from None fn have "?fn args = CallRun ?cmd args"
      by simp
    from tools_call_CallRun [OF gt this] no show ?thesis
      by blast
  next
    case (Some t)
    then have mem: "t \<in> set args \<and> t \<in> ?F"
      using find_Some_mem [of "\<lambda>a. a \<in> set FORBIDDEN_TOKENS" args t] by (simp add: F)
    from Some fn have "?fn args = Throw (''forbidden argument: '' @ t)"
      by simp
    from tools_call_Throw [OF gt this]
    have "tools_call ex i name args log = (Error i (- 32000) (''forbidden argument: '' @ t), log)"
      by (simp add: reply_error)
    moreover from Some have "find (\<lambda>a. a \<in> ?F) args = Some t"
      by (simp add: F)
    ultimately show ?thesis
      using mem by blast
  qed
qed

theorem denylist_rejects_exact_tokens_witness:
  "tools_call (exits (Some 0) [] []) 3 ''safe_find'' [''.'', ''-name'', ''a'', ''-exec'', ''rm'', ''{}'', '';''] [] =
     (Error 3 (- 32000) ''forbidden argument: -exec'', []) \<and>
   tools_call (exits (Some 0) [] []) 4 ''safe_sed'' [''-n'', ''--in-place'', ''p'', ''f''] [] =
     (Error 4 (- 32000) ''forbidden argument: --in-place'', []) \<and>
   snd (tools_call (exits (Some 0) [] []) 5 ''safe_sed'' [''-ni'', ''-I'', ''-i.bak'', ''p'', ''f''] []) =
     [\<lparr>command = ''sed'', arguments = [''-ni'', ''-I'', ''-i.bak'', ''p'', ''f''], shell = False\<rparr>] \<and>
   snd (tools_call (exits (Some 0) [] []) 5 ''safe_find'' [''.'', ''-EXEC'', ''-execdir'', ''-okdir'', ''-fprint'', ''f''] []) =
     [\<lparr>command = ''find'', arguments = [''.'', ''-EXEC'', ''-execdir'', ''-okdir'', ''-fprint'', ''f''], shell = False\<rparr>]"
  using denylist_rejects_exact_tokens [of "''safe_find''" "[''.'', ''-name'', ''a'', ''-exec'', ''rm'', ''{}'', '';'']" "exits (Some 0) [] []" 3 "[]"]
    denylist_rejects_exact_tokens [of "''safe_sed''" "[''-n'', ''--in-place'', ''p'', ''f'']" "exits (Some 0) [] []" 4 "[]"]
    denylist_rejects_exact_tokens [of "''safe_sed''" "[''-ni'', ''-I'', ''-i.bak'', ''p'', ''f'']" "exits (Some 0) [] []" 5 "[]"]
    denylist_rejects_exact_tokens [of "''safe_find''" "[''.'', ''-EXEC'', ''-execdir'', ''-okdir'', ''-fprint'', ''f'']" "exits (Some 0) [] []" 5 "[]"]
  by simp

section \<open>The git sub-command set\<close>

text \<open>
  Claim C4. \<open>safe_git\<close> spawns \<open>git\<close>, with the vector as it is, exactly when the
  vector has a first element and that element is one of the twelve enumerated
  sub-commands. In every other case, the empty vector included, the response is the
  error \<open>git subcommand not allowed\<close> and nothing is spawned.
\<close>
theorem safe_git_subcommands:
  "(snd (tools_call ex i ''safe_git'' args log) =
      log @ [\<lparr>command = ''git'', arguments = args, shell = False\<rparr>]) =
   (\<exists>sub rest. args = sub # rest \<and>
      sub \<in> {''status'', ''diff'', ''show'', ''log'', ''ls-files'', ''rev-parse'', ''branch'',
             ''tag'', ''remote'', ''blame'', ''cat-file'', ''describe''}) \<and>
   (\<not> (\<exists>sub rest. args = sub # rest \<and>
      sub \<in> {''status'', ''diff'', ''show'', ''log'', ''ls-files'', ''rev-parse'', ''branch'',
             ''tag'', ''remote'', ''blame'', ''cat-file'', ''describe''}) \<longrightarrow>
    tools_call ex i ''safe_git'' args log =
      (Error i (- 32000) (''git subcommand not allowed: '' @ (case args of [] \<Rightarrow> [] | a # _ \<Rightarrow> a)), log))"
proof -
  let ?S = "{''status'', ''diff'', ''show'', ''log'', ''ls-files'', ''rev-parse'', ''branch'',
             ''tag'', ''remote'', ''blame'', ''cat-file'', ''describe''}"
  have S: "set allowedSub = ?S"
    by (simp add: allowedSub_def)
  have empty: "[] \<notin> ?S"
    by simp
  have acc: "(\<exists>sub rest. args = sub # rest \<and> sub \<in> ?S) = (first_or_empty args \<in> set allowedSub)"
    unfolding S first_or_empty_def using empty by (cases args) auto
  show ?thesis
  proof (cases "first_or_empty args \<in> set allowedSub")
    case True
    then have "safe_git args = CallRun ''git'' args"
      by (simp add: safe_git_def)
    from tools_call_CallRun [OF get_tool_safe_git this] True acc show ?thesis
      by simp
  next
    case False
    then have "safe_git args = Throw (''git subcommand not allowed: '' @ first_or_empty args)"
      by (simp add: safe_git_def)
    from tools_call_Throw [OF get_tool_safe_git this]
    have "tools_call ex i ''safe_git'' args log =
        (Error i (- 32000) (''git subcommand not allowed: '' @ first_or_empty args), log)"
      by (simp add: reply_error)
    with False acc show ?thesis
      by (simp add: first_or_empty_def)
  qed
qed

theorem safe_git_subcommands_witness:
  "tools_call (exits (Some 0) [] []) 1 ''safe_git'' [] [] =
     (Error 1 (- 32000) ''git subcommand not allowed: '', []) \<and>
   tools_call (exits (Some 0) [] []) 2 ''safe_git'' [''push'', ''origin''] [] =
     (Error 2 (- 32000) ''git subcommand not allowed: push'', []) \<and>
   tools_call (exits (Some 0) [] []) 2 ''safe_git'' [''-C'', ''status''] [] =
     (Error 2 (- 32000) ''git subcommand not allowed: -C'', []) \<and>
   snd (tools_call (exits (Some 0) [] []) 3 ''safe_git'' [''log'', ''-1''] []) =
     [\<lparr>command = ''git'', arguments = [''log'', ''-1''], shell = False\<rparr>]"
  using safe_git_subcommands [of "exits (Some 0) [] []" 1 "[]" "[]"]
    safe_git_subcommands [of "exits (Some 0) [] []" 2 "[''push'', ''origin'']" "[]"]
    safe_git_subcommands [of "exits (Some 0) [] []" 2 "[''-C'', ''status'']" "[]"]
    safe_git_subcommands [of "exits (Some 0) [] []" 3 "[''log'', ''-1'']" "[]"]
  by simp

section \<open>The checksum operation\<close>

lemma sha_sum_name_iff:
  "sha_sum_name t = (t \<in> {''sha1sum'', ''sha224sum'', ''sha256sum'', ''sha384sum'', ''sha512sum''})"
  by (simp add: sha_sum_name_def)

lemma safe_sha_cases:
  "safe_sha args =
     (case args of
        [] \<Rightarrow> CallRun ''sha256sum'' []
      | t # rest \<Rightarrow>
          if t \<in> {''sha1sum'', ''sha224sum'', ''sha256sum'', ''sha384sum'', ''sha512sum'',
                   ''shasum'', ''md5sum'', ''md5''}
          then CallRun t rest
          else CallRun ''sha256sum'' args)"
  by (cases args) (auto simp: safe_sha_def sha_sum_name_iff)

text \<open>
  Claim C10. \<open>safe_sha\<close> never throws, so every vector leads to exactly one spawn:
  of the tool named by the first element, on the remaining elements, when that element
  is one of the eight recognised names; of \<open>sha256sum\<close> on the whole vector for any
  other first element; and of \<open>sha256sum\<close> on no arguments for the empty vector.
\<close>

theorem safe_sha_never_rejects:
  "snd (tools_call ex i ''safe_sha'' args log) =
     log @ [case args of
              [] \<Rightarrow> \<lparr>command = ''sha256sum'', arguments = [], shell = False\<rparr>
            | t # rest \<Rightarrow>
                if t \<in> {''sha1sum'', ''sha224sum'', ''sha256sum'', ''sha384sum'', ''sha512sum'',
                         ''shasum'', ''md5sum'', ''md5''}
                then \<lparr>command = t, arguments = rest, shell = False\<rparr>
                else \<lparr>command = ''sha256sum'', arguments = args, shell = False\<rparr>]"
proof (cases args)
  case Nil
  then have "safe_sha args = CallRun ''sha256sum'' []"
    by (simp add: safe_sha_cases)
  from tools_call_CallRun [OF get_tool_safe_sha this] Nil show ?thesis
    by simp
next
  case (Cons t rest)
  let ?known = "{''sha1sum'', ''sha224sum'', ''sha256sum'', ''sha384sum'', ''sha512sum'',
                 ''shasum'', ''md5sum'', ''md5''}"
  show ?thesis
  proof (cases "t \<in> ?known")
    case True
    with Cons have "safe_sha args = CallRun t rest"
      unfolding safe_sha_cases by simp
    from tools_call_CallRun [OF get_tool_safe_sha this] Cons True show ?thesis
      by simp
  next
    case False
    with Cons have "safe_sha args = CallRun ''sha256sum'' args"
      unfolding safe_sha_cases by simp
    from tools_call_CallRun [OF get_tool_safe_sha this] Cons False show ?thesis
      by simp
  qed
qed

section \<open>Archive listing\<close>

lemma safe_unzip_list_requires_l:
  "(''-l'' \<notin> set args \<longrightarrow>
      tools_call ex i ''safe_unzip_list'' args log =
        (Error i (- 32000) ''safe_unzip_list requires -l (list) mode'', log)) \<and>
   (''-l'' \<in> set args \<longrightarrow>
      snd (tools_call ex i ''safe_unzip_list'' args log) =
        log @ [\<lparr>command = ''unzip'', arguments = args, shell = False\<rparr>])"
proof (intro conjI impI)
  assume "''-l'' \<notin> set args"
  then have "safe_unzip_list args = Throw ''safe_unzip_list requires -l (list) mode''"
    by (simp add: safe_unzip_list_def)
  from tools_call_Throw [OF get_tool_safe_unzip_list this]
  show "tools_call ex i ''safe_unzip_list'' args log =
        (Error i (- 32000) ''safe_unzip_list requires -l (list) mode'', log)"
    by (simp add: reply_error)
next
  assume "''-l'' \<in> set args"
  then have "safe_unzip_list args = CallRun ''unzip'' args"
    by (simp add: safe_unzip_list_def)
  from tools_call_CallRun [OF get_tool_safe_unzip_list this]
  show "snd (tools_call ex i ''safe_unzip_list'' args log) =
        log @ [\<lparr>command = ''unzip'', arguments = args, shell = False\<rparr>]" .
qed

text \<open>
  Claim C5 holds for \<open>safe_unzip_list\<close> (the lemma above) and fails for
  \<open>safe_tar_list\<close>, which never looks for its listing flag. The vectors
  \<open>[xf, a.tar]\<close>, \<open>[cf, out.tar, /etc]\<close> and \<open>[-f, a.tar]\<close> hold neither \<open>-t\<close> nor
  \<open>--list\<close>; none of them is refused, and \<open>tar\<close> is spawned with each as it is. The
  sibling \<open>safe_unzip_list\<close> refuses a vector without \<open>-l\<close>.
\<close>

theorem safe_tar_list_without_listing_flag:
  "''-t'' \<notin> set [''xf'', ''a.tar''] \<and> ''--list'' \<notin> set [''xf'', ''a.tar''] \<and>
   tools_call (exits (Some 0) [] []) 1 ''safe_tar_list'' [''xf'', ''a.tar''] [] =
     (Result 1 (CallResult (Some [])),
      [\<lparr>command = ''tar'', arguments = [''xf'', ''a.tar''], shell = False\<rparr>]) \<and>
   tools_call (exits (Some 0) [] []) 2 ''safe_tar_list'' [''cf'', ''out.tar'', ''/etc''] [] =
     (Result 2 (CallResult (Some [])),
      [\<lparr>command = ''tar'', arguments = [''cf'', ''out.tar'', ''/etc''], shell = False\<rparr>]) \<and>
   tools_call (exits (Some 0) [] []) 3 ''safe_tar_list'' [''-f'', ''a.tar''] [] =
     (Result 3 (CallResult (Some [])),
      [\<lparr>command = ''tar'', arguments = [''-f'', ''a.tar''], shell = False\<rparr>]) \<and>
   tools_call (exits (Some 0) [] []) 4 ''safe_unzip_list'' [''a.zip''] [] =
     (Error 4 (- 32000) ''safe_unzip_list requires -l (list) mode'', [])"
  by code_simp

section \<open>The executor never goes through a shell\<close>

text \<open>
  Claim C8. For every operation of the table and every vector the operation accepts,
  that is, the tool reaches \<open>run(cmd, argv)\<close>, the dispatch makes exactly one spawn: of
  \<open>cmd\<close>, with \<open>argv\<close> handed over as a list, element by element as the tool passed
  it, and with the shell option off.
\<close>

theorem spawn_is_literal_and_shell_free:
  assumes "map_of tools name = Some fn" and "fn args = CallRun cmd argv"
  shows "snd (tools_call ex i name args log) =
           log @ [\<lparr>command = cmd, arguments = argv, shell = False\<rparr>] \<and>
         (\<forall>p \<in> set (snd (tools_call ex i name args [])). \<not> shell p)"
proof -
  from assms(1) have gt: "get_tool name = OwnTool fn"
    by (rule get_tool_own)
  from tools_call_CallRun [OF gt assms(2)] show ?thesis
    by simp
qed

theorem spawn_is_literal_and_shell_free_witness:
  "map_of tools ''safe_grep'' = Some (pass_args ''grep'') \<and>
   pass_args ''grep'' [''-r'', ''$(id); rm -rf x | sh'', ''.''] =
     CallRun ''grep'' [''-r'', ''$(id); rm -rf x | sh'', ''.''] \<and>
   snd (tools_call (exits (Some 0) [] []) 1 ''safe_grep'' [''-r'', ''$(id); rm -rf x | sh'', ''.''] []) =
     [\<lparr>command = ''grep'', arguments = [''-r'', ''$(id); rm -rf x | sh'', ''.''], shell = False\<rparr>]"
proof -
  have l: "map_of tools ''safe_grep'' = Some (pass_args ''grep'')"
    by (simp add: tools_def)
  have r: "pass_args ''grep'' [''-r'', ''$(id); rm -rf x | sh'', ''.''] =
     CallRun ''grep'' [''-r'', ''$(id); rm -rf x | sh'', ''.'']"
    by (simp add: pass_args_def)
  from spawn_is_literal_and_shell_free [OF l r, of "exits (Some 0) [] []" 1 "[]"] l r
  show ?thesis
    by simp
qed

section \<open>The decision does not depend on earlier requests\<close>

lemma tools_call_log:
  "tools_call ex i name args log =
     (fst (tools_call ex i name args []), log @ snd (tools_call ex i name args []))"
  by (simp add: tools_call_def run_def Let_def
      split: property.split tool_outcome.split proc_event.split option.split)

lemma spawned_any_executor:
  "snd (tools_call ex1 i name args []) = snd (tools_call ex2 i name args [])"
  by (simp add: tools_call_def run_def Let_def
      split: property.split tool_outcome.split proc_event.split option.split)

lemma refusal_any_executor:
  assumes "snd (tools_call ex1 i name args []) = []"
  shows "fst (tools_call ex2 i name args []) = fst (tools_call ex1 i name args [])"
proof (cases "get_tool name")
  case Undefined
  then show ?thesis
    by (simp add: tools_call_def)
next
  case (OwnTool fn)
  show ?thesis
  proof (cases "fn args")
    case (Throw e)
    with OwnTool show ?thesis
      by (simp add: tools_call_Throw)
  next
    case (CallRun cmd argv)
    from tools_call_CallRun [OF OwnTool CallRun, of ex1 i "[]"] assms show ?thesis
      by simp
  qed
next
  case (Inherited m)
  then show ?thesis
    by (simp add: tools_call_def split: option.split)
qed

lemma rejectForbidden_in_start: "rejectForbidden_in FORBIDDEN_TOKENS args = rejectForbidden args"
  by (induction args) simp_all

lemma map_of_keyed_map:
  "map_of (map (\<lambda>(k, v). (k, f k v)) xs) k = map_option (f k) (map_of xs k)"
  by (induction xs) auto

lemma map_of_module_tools:
  "map_of module_tools name =
     map_option (\<lambda>t. if name = ''safe_sed'' then reads_forbidden ''sed''
                      else if name = ''safe_find'' then reads_forbidden ''find'' else keeps t)
       (map_of tools name)"
  unfolding module_tools_def by (rule map_of_keyed_map)

lemma map_of_tools_denylist:
  "map_of tools ''safe_sed'' = Some safe_sed" "map_of tools ''safe_find'' = Some safe_find"
  by (simp_all add: tools_def)

lemma module_tool_start:
  assumes "map_of tools name = Some t"
  shows "\<exists>fn. map_of module_tools name = Some fn \<and>
           fn args FORBIDDEN_TOKENS = (t args, FORBIDDEN_TOKENS)"
proof -
  consider (sed) "name = ''safe_sed''" | (find) "name = ''safe_find''"
    | (other) "name \<noteq> ''safe_sed''" "name \<noteq> ''safe_find''"
    by blast
  then show ?thesis
  proof cases
    case sed
    with assms map_of_tools_denylist(1) have "t = safe_sed"
      by simp
    with sed assms show ?thesis
      by (simp add: map_of_module_tools reads_forbidden_def safe_sed_def rejectForbidden_in_start)
  next
    case find
    with assms map_of_tools_denylist(2) have "t = safe_find"
      by simp
    with find assms show ?thesis
      by (simp add: map_of_module_tools reads_forbidden_def safe_find_def rejectForbidden_in_start)
  next
    case other
    with assms show ?thesis
      by (simp add: map_of_module_tools keeps_def)
  qed
qed

lemma m_tools_call_start:
  assumes F: "forbidden s = FORBIDDEN_TOKENS" and T: "table s = module_tools"
  shows "m_tools_call ex i name args s =
     (fst (tools_call ex i name args (spawned s)),
      s\<lparr>spawned := snd (tools_call ex i name args (spawned s))\<rparr>)"
proof (cases "map_of tools name")
  case None
  then have "map_of (table s) name = None"
    by (simp add: T map_of_module_tools)
  with None show ?thesis
    by (simp add: m_tools_call_def m_get_tool_def tools_call_def get_tool_def split: option.split)
next
  case (Some t)
  from module_tool_start [OF Some, of args] obtain fn
    where fn: "map_of (table s) name = Some fn"
      and res: "fn args (forbidden s) = (t args, forbidden s)"
    by (auto simp: T F)
  have same: "s\<lparr>forbidden := forbidden s\<rparr> = s"
    by simp
  show ?thesis
  proof (cases "t args")
    case (Throw e)
    with Some fn res same show ?thesis
      by (simp add: m_tools_call_def m_get_tool_def tools_call_def get_tool_def)
  next
    case (CallRun cmd argv)
    with Some fn res show ?thesis
      by (simp add: m_tools_call_def m_get_tool_def tools_call_def get_tool_def run_def Let_def
          split: proc_event.split)
  qed
qed


lemma m_handle_start:
  assumes F: "forbidden s = FORBIDDEN_TOKENS" and T: "table s = module_tools"
  shows "forbidden (snd (m_handle ex i req s)) = FORBIDDEN_TOKENS \<and>
         table (snd (m_handle ex i req s)) = module_tools"
  by (cases req) (simp_all add: m_handle_def m_tools_call_start [OF F T] F T)

lemma drain_start:
  assumes "forbidden s = FORBIDDEN_TOKENS \<and> table s = module_tools"
  shows "forbidden (snd (drain dec ex s)) = FORBIDDEN_TOKENS \<and>
         table (snd (drain dec ex s)) = module_tools"
  using assms
proof (induction dec ex s rule: drain.induct)
  case (1 dec ex s)
  note inv = "1.prems"
  show ?case
  proof (cases "CHR 0x0A \<in> set (buf s)")
    case False
    with inv show ?thesis
      by (simp add: drain.simps [of dec ex s])
  next
    case True
    define line where "line = takeWhile (\<lambda>c. c \<noteq> CHR 0x0A) (buf s)"
    define s1 where "s1 = s\<lparr>buf := tl (dropWhile (\<lambda>c. c \<noteq> CHR 0x0A) (buf s))\<rparr>"
    from True have nl: "\<not> CHR 0x0A \<notin> set (buf s)"
      by simp
    from inv have inv1: "forbidden s1 = FORBIDDEN_TOKENS \<and> table s1 = module_tools"
      by (simp add: s1_def)
    show ?thesis
    proof (cases "dec line")
      case None
      with True have "drain dec ex s = drain dec ex s1"
        by (simp add: drain.simps [of dec ex s] Let_def line_def s1_def)
      with "1.IH"(1) [OF nl line_def s1_def None inv1] show ?thesis
        by simp
    next
      case (Some m)
      obtain i req where m: "m = (i, req)"
        by (cases m)
      obtain r s2 where h: "m_handle ex i req s1 = (r, s2)"
        by (cases "m_handle ex i req s1")
      from m_handle_start [of s1 ex i req] inv1 h
      have inv2: "forbidden s2 = FORBIDDEN_TOKENS \<and> table s2 = module_tools"
        by simp
      show ?thesis
      proof (cases "returns_early s1 req")
        case True
        with \<open>CHR 0x0A \<in> set (buf s)\<close> Some m h have "drain dec ex s = ([r], s2)"
          by (simp add: drain.simps [of dec ex s] Let_def line_def s1_def)
        with inv2 show ?thesis
          by simp
      next
        case False
        with \<open>CHR 0x0A \<in> set (buf s)\<close> Some m h
        have "snd (drain dec ex s) = snd (drain dec ex s2)"
          by (simp add: drain.simps [of dec ex s] Let_def line_def s1_def split_beta)
        with "1.IH"(2) [OF nl line_def s1_def Some m [symmetric] h [symmetric] False inv2]
        show ?thesis
          by simp
      qed
    qed
  qed
qed

lemma reachable_start:
  assumes "reachable s"
  shows "forbidden s = FORBIDDEN_TOKENS \<and> table s = module_tools"
  using assms
proof induction
  case start
  show ?case
    by (simp add: module_start_def)
next
  case (data s dec ex chunk)
  then have "forbidden (s\<lparr>buf := buf s @ chunk\<rparr>) = FORBIDDEN_TOKENS \<and>
      table (s\<lparr>buf := buf s @ chunk\<rparr>) = module_tools"
    by simp
  then show ?case
    unfolding on_data_def by (rule drain_start)
qed

lemma m_tools_call_reachable:
  assumes "reachable s"
  shows "m_tools_call ex i name args s =
     (fst (tools_call ex i name args []),
      s\<lparr>spawned := spawned s @ snd (tools_call ex i name args [])\<rparr>)"
proof -
  from reachable_start [OF assms]
  have "m_tools_call ex i name args s =
     (fst (tools_call ex i name args (spawned s)),
      s\<lparr>spawned := snd (tools_call ex i name args (spawned s))\<rparr>)"
    by (intro m_tools_call_start) simp_all
  also have "tools_call ex i name args (spawned s) =
      (fst (tools_call ex i name args []), spawned s @ snd (tools_call ex i name args []))"
    by (rule tools_call_log)
  finally show ?thesis
    by simp
qed

text \<open>
  Claim C9. Take any two states \<open>s\<close> and \<open>s'\<close> the module can reach: after any chunks
  on stdin, decoded in any way, with the commands having behaved in any way. Neither
  \<open>FORBIDDEN_TOKENS\<close> nor \<open>tools\<close> has been changed in either. Handling the same
  operation name and vector in \<open>s\<close> and in \<open>s'\<close>, with the commands behaving in any two
  ways \<open>ex\<close> and \<open>ex'\<close>, adds the same spawn calls (none for a refusal, the one call
  with the same command and arguments for an acceptance); a refusal gives the same
  error response in both; when the commands behave the same, the whole response is the
  same; and the handling itself leaves \<open>FORBIDDEN_TOKENS\<close>, \<open>tools\<close> and \<open>buf\<close> as
  they were.
\<close>

theorem policy_decision_independent_of_state:
  assumes "reachable s" and "reachable s'"
  shows "forbidden s = FORBIDDEN_TOKENS \<and> table s = module_tools \<and>
         drop (length (spawned s)) (spawned (snd (m_tools_call ex i name args s))) =
           drop (length (spawned s')) (spawned (snd (m_tools_call ex' i name args s'))) \<and>
         (spawned (snd (m_tools_call ex i name args s)) = spawned s \<longrightarrow>
            fst (m_tools_call ex' i name args s') = fst (m_tools_call ex i name args s)) \<and>
         fst (m_tools_call ex i name args s') = fst (m_tools_call ex i name args s) \<and>
         forbidden (snd (m_tools_call ex i name args s)) = forbidden s \<and>
         table (snd (m_tools_call ex i name args s)) = table s \<and>
         buf (snd (m_tools_call ex i name args s)) = buf s"
proof (intro conjI impI)
  note s = m_tools_call_reachable [OF assms(1)]
  note s' = m_tools_call_reachable [OF assms(2)]
  from reachable_start [OF assms(1)]
  show "forbidden s = FORBIDDEN_TOKENS" and "table s = module_tools"
    by simp_all
  show "drop (length (spawned s)) (spawned (snd (m_tools_call ex i name args s))) =
      drop (length (spawned s')) (spawned (snd (m_tools_call ex' i name args s')))"
    using spawned_any_executor [of ex i name args ex'] by (simp add: s s')
  show "fst (m_tools_call ex i name args s') = fst (m_tools_call ex i name args s)"
    by (simp add: s s')
  show "forbidden (snd (m_tools_call ex i name args s)) = forbidden s"
    and "table (snd (m_tools_call ex i name args s)) = table s"
    and "buf (snd (m_tools_call ex i name args s)) = buf s"
    by (simp_all add: s)
  assume "spawned (snd (m_tools_call ex i name args s)) = spawned s"
  then have "snd (tools_call ex i name args []) = []"
    by (simp add: s)
  from refusal_any_executor [OF this, of ex']
  show "fst (m_tools_call ex' i name args s') = fst (m_tools_call ex i name args s)"
    by (simp add: s s')
qed

theorem policy_decision_independent_of_state_witness:
  "reachable module_start \<and>
   reachable (snd (on_data calls_named (exits (Some 0) [] []) (''safe_sed'' @ [CHR 0x0A]) module_start)) \<and>
   fst (m_tools_call (exits (Some 1) [] ''boom'') 7 ''safe_sed'' [''-n'', ''-i'']
          (snd (on_data calls_named (exits (Some 0) [] []) (''safe_sed'' @ [CHR 0x0A]) module_start))) =
     fst (m_tools_call (exits (Some 1) [] ''boom'') 7 ''safe_sed'' [''-n'', ''-i''] module_start) \<and>
   fst (m_tools_call (exits (Some 1) [] ''boom'') 7 ''safe_sed'' [''-n'', ''-i'']
          (snd (on_data calls_named (exits (Some 0) [] []) (''safe_sed'' @ [CHR 0x0A]) module_start))) =
     Error 7 (- 32000) ''forbidden argument: -i''"
proof (intro conjI)
  show r0: "reachable module_start"
    by (rule reachable.start)
  then show r1: "reachable (snd (on_data calls_named (exits (Some 0) [] []) (''safe_sed'' @ [CHR 0x0A]) module_start))"
    by (rule reachable.data)
  from policy_decision_independent_of_state [OF r0 r1, of "exits (Some 1) [] ''boom''" 7 "''safe_sed''"
      "[''-n'', ''-i'']" "exits (Some 1) [] ''boom''"]
  show same: "fst (m_tools_call (exits (Some 1) [] ''boom'') 7 ''safe_sed'' [''-n'', ''-i'']
          (snd (on_data calls_named (exits (Some 0) [] []) (''safe_sed'' @ [CHR 0x0A]) module_start))) =
     fst (m_tools_call (exits (Some 1) [] ''boom'') 7 ''safe_sed'' [''-n'', ''-i''] module_start)"
    by (elim conjE)
  have "fst (m_tools_call (exits (Some 1) [] ''boom'') 7 ''safe_sed'' [''-n'', ''-i''] module_start) =
      Error 7 (- 32000) ''forbidden argument: -i''"
    by code_simp
  with same show "fst (m_tools_call (exits (Some 1) [] ''boom'') 7 ''safe_sed'' [''-n'', ''-i'']
          (snd (on_data calls_named (exits (Some 0) [] []) (''safe_sed'' @ [CHR 0x0A]) module_start))) =
     Error 7 (- 32000) ''forbidden argument: -i''"
    by (simp only:)
qed

section \<open>Error responses\<close>







section \<open>Announced and dispatched names\<close>

lemma announced_names_are_own:
  "(name \<in> set tool_names) = (\<exists>fn. get_tool name = OwnTool fn)"
proof
  assume "name \<in> set tool_names"
  then have "map_of tools name \<noteq> None"
    by (simp add: tool_names_def map_of_eq_None_iff)
  then show "\<exists>fn. get_tool name = OwnTool fn"
    by (auto simp: get_tool_def)
next
  assume "\<exists>fn. get_tool name = OwnTool fn"
  then have "map_of tools name \<noteq> None"
    by (auto simp: get_tool_def split: option.splits if_splits)
  then show "name \<in> set tool_names"
    by (simp add: tool_names_def map_of_eq_None_iff)
qed

lemma announcements:
  "fst (handle ex i Initialize log) =
     Result i (InitializeResult ''safe-unix-mcp'' ''0.1.0'' (map (\<lambda>n. (n, ''Safe Unix utility'')) tool_names)) \<and>
   fst (handle ex i ToolsList log) = Result i (NameList tool_names)"
  by (simp add: handle_def reply_def SERVER_NAME_def VERSION_def)

text \<open>
  Claim C7 holds for the names of the table, and fails for the names the table object
  inherits. \<open>toString\<close> is in neither announced list, yet the handler of \<open>tools/call\<close>
  finds a function under that name, calls it and answers with a result, where a name
  that resolves to nothing is answered with the error \<open>unknown tool\<close>.
\<close>

theorem inherited_name_is_dispatched:
  "''toString'' \<notin> set tool_names \<and>
   fst (handle (exits (Some 0) [] []) 1 ToolsList []) = Result 1 (NameList tool_names) \<and>
   handle (exits (Some 0) [] []) 2 (ToolsCall ''toString'' []) [] = (Result 2 (CallResult None), []) \<and>
   handle (exits (Some 0) [] []) 3 (ToolsCall ''to_string'' []) [] = (Error 3 (- 32000) ''unknown tool'', [])"
  by code_simp

section \<open>Which operations are default-deny\<close>














end
